theory Spec2Isabelle
  imports Main
begin

section \<open>Filter values and filter sets\<close>

text \<open>
  The scripts of this repository keep the search filters in a Python \<open>dict\<close> from
  category names to JSON values, as they are posted to the search provider. A JSON value
  is \<open>None\<close>, a boolean, a number, a string, a list, or a dict keyed by strings.
  Numbers are modelled as integers; the functions below only ask whether a value is a
  dict or a list, so the kind of a number plays no role in them.
\<close>

datatype json =
    JNull
  | JBool bool
  | JInt int
  | JStr string
  | JList "json list"
  | JDict "string \<Rightarrow> json option"

type_synonym filters = "string \<Rightarrow> json option"

text \<open>
  The exceptions of Python that the modelled code can raise. \<open>RequestError\<close> stands for
  the exceptions of the \<open>requests\<close> and \<open>anthropic\<close> libraries and of \<open>json.loads\<close>;
  \<open>exit(n)\<close> raises \<open>SystemExit n\<close>.
\<close>

datatype py_error =
    KeyError
  | AttributeError
  | TypeError
  | NameError
  | RequestError
  | SystemExit int

text \<open>
  One entry of \<open>suggested_changes\<close>, as \<open>apply_filter_change\<close> reads it:
  \<open>change["filter"]\<close>, \<open>change["action"]\<close> and \<open>change["value"]\<close>.
  The category name and the action are strings. The loop prints a change with
  \<open>change.get('value')\<close>, so a change without the key \<open>"value"\<close> reaches
  \<open>apply_filter_change\<close>; it is \<open>None\<close> in \<open>change_value\<close>, and reading it raises
  \<open>KeyError\<close>.
\<close>

record change =
  change_filter :: string
  change_action :: string
  change_value :: "json option"

section \<open>Applying a suggested change\<close>

text \<open>
  \<^verbatim>\<open>
  def apply_filter_change(filters: dict, change: dict) -> dict:
      new_filters = filters.copy()
      filter_name = change["filter"]
      action = change["action"]
      value = change["value"]
      if action == "set":
          new_filters[filter_name] = value
      elif action == "add":
          if filter_name not in new_filters:
              new_filters[filter_name] = {}
          if isinstance(value, dict):
              new_filters[filter_name].update(value)
          elif isinstance(value, list):
              if filter_name not in new_filters:
                  new_filters[filter_name] = []
              new_filters[filter_name].extend(value)
      elif action == "remove":
          if filter_name in new_filters:
              del new_filters[filter_name]
      return new_filters
  \<close>
  The result is the returned dict, or the exception raised. \<open>update\<close> exists on a
  dict only and \<open>extend\<close> on a list only: on any other stored value the attribute
  lookup raises \<open>AttributeError\<close>. The copy is shallow, so \<open>update\<close> and \<open>extend\<close>
  change the stored object in place; the caller replaces its filters by the returned
  dict, which holds that same object, so the returned mapping is all that is observed.
\<close>

definition dict_update :: "filters \<Rightarrow> string \<Rightarrow> (string \<Rightarrow> json option) \<Rightarrow> py_error + filters" where
  "dict_update new_filters filter_name e =
     (case new_filters filter_name of
        Some (JDict d) \<Rightarrow> Inr (new_filters(filter_name \<mapsto> JDict (d ++ e)))
      | Some _ \<Rightarrow> Inl AttributeError
      | None \<Rightarrow> Inl KeyError)"

definition list_extend :: "filters \<Rightarrow> string \<Rightarrow> json list \<Rightarrow> py_error + filters" where
  "list_extend new_filters filter_name xs =
     (case new_filters filter_name of
        Some (JList ys) \<Rightarrow> Inr (new_filters(filter_name \<mapsto> JList (ys @ xs)))
      | Some _ \<Rightarrow> Inl AttributeError
      | None \<Rightarrow> Inl KeyError)"

definition apply_filter_change :: "filters \<Rightarrow> change \<Rightarrow> py_error + filters" where
  "apply_filter_change filters c =
     (let new_filters = filters;
          filter_name = change_filter c;
          action = change_action c
      in case change_value c of
           None \<Rightarrow> Inl KeyError
         | Some v \<Rightarrow>
             if action = ''set'' then Inr (new_filters(filter_name \<mapsto> v))
             else if action = ''add'' then
               (let new_filters =
                      (if new_filters filter_name = None
                       then new_filters(filter_name \<mapsto> JDict Map.empty)
                       else new_filters)
                in case v of
                     JDict e \<Rightarrow> dict_update new_filters filter_name e
                   | JList xs \<Rightarrow>
                       (let new_filters =
                              (if new_filters filter_name = None
                               then new_filters(filter_name \<mapsto> JList [])
                               else new_filters)
                        in list_extend new_filters filter_name xs)
                   | _ \<Rightarrow> Inr new_filters)
             else if action = ''remove'' then
               (if new_filters filter_name \<noteq> None
                then Inr (new_filters(filter_name := None))
                else Inr new_filters)
             else Inr new_filters)"

section \<open>The refinement loop of \<open>advanced_refinement.py\<close>\<close>

text \<open>
  \<open>main\<close> talks to three parties: the search provider (\<open>preview_search\<close> and the
  enrichment request), the advisory model (\<open>get_ai_refinement_suggestions\<close>) and the
  user at the terminal (\<open>input\<close>). Their answers are not computed by the script, so
  they are parameters of the model, and every theorem holds for all of them.

  \<^item> \<open>preview_search env n filters\<close> is the outcome of the \<open>n\<close>-th preview (counting from
    0), lines 200 and 201: the count \<open>preview.get("count", 0)\<close>, an integer as the
    annotation \<open>count: int\<close> says, or the exception raised by the request, by
    \<open>raise_for_status\<close>, by decoding the body or by \<open>get\<close> on a body that is not an
    object. Both lines stand outside the \<open>try\<close>.
  \<^item> \<open>get_ai_refinement_suggestions env filters count goal iteration previous_counts\<close>
    is the outcome of the advisory call together with the four lines that print
    \<open>status\<close>, \<open>recommendation\<close>, \<open>reasoning\<close> and \<open>confidence\<close>: an exception (from
    the call, from \<open>json.loads\<close>, from a missing key or from \<open>upper\<close> on a value that
    is not a string), or the fields the loop goes on to read.
  \<^item> \<open>input env k\<close> is the line the user types at the \<open>k\<close>-th prompt (counting from 0);
    the user answers every prompt.
\<close>

text \<open>
  \<open>suggestions.get('suggested_changes')\<close>: \<open>Changes cs\<close> is a list of changes that the
  printing loop (lines 242 to 246) gets through, with \<open>Changes []\<close> for every value that
  is false in Python (a missing key, \<open>None\<close>, an empty list); \<open>Unprintable e\<close> is a true
  value on which \<open>len\<close> or the printing loop raises \<open>e\<close> (not a list, an entry that is
  not a dict, an entry without \<open>filter\<close>, \<open>action\<close> or \<open>rationale\<close>).
\<close>

datatype suggested = Unprintable py_error | Changes "change list"

record suggestions =
  recommendation :: string
  suggested_changes :: suggested

record env =
  preview_search :: "nat \<Rightarrow> filters \<Rightarrow> py_error + int"
  get_ai_refinement_suggestions ::
    "filters \<Rightarrow> int \<Rightarrow> string \<Rightarrow> int \<Rightarrow> int list \<Rightarrow> py_error + suggestions"
  input :: "nat \<Rightarrow> string"

text \<open>What the script does to the outside world, in order.\<close>

datatype prompt = Continue_anyway | Apply_these_changes | Own_adjustments | Proceed_with_enrichment

datatype event =
    Preview_request filters
  | Input prompt string
  | Enrich_request filters int

text \<open>
  The local variables of \<open>main\<close> that the loop changes (\<open>count\<close> is unbound before the
  first preview), the number of lines read from the terminal, and the events so far.
\<close>

record loop_state =
  current_filters :: filters
  previous_counts :: "int list"
  count :: "int option"
  inputs_read :: nat
  trace :: "event list"

text \<open>How the \<open>while\<close> loop is left.\<close>

datatype stop =
    AI_proceed
  | Manual_declined
  | Count_looks_good
  | Max_iterations
  | Cancelled
  | Uncaught py_error

definition MAX_ITERATIONS :: int where
  "MAX_ITERATIONS = 5"

text \<open>
  \<open>str.lower\<close> and \<open>str.strip\<close> on the answers typed at the prompts. A Python string
  is a sequence of Unicode characters; it is modelled by its UTF-8 encoding, one \<open>char\<close>
  per byte. The answers are compared with \<open>'y'\<close> and \<open>'yes'\<close> after \<open>lower\<close>, and no
  character outside ASCII becomes \<open>y\<close>, \<open>e\<close> or \<open>s\<close> in lower case, so \<open>lower\<close> maps the
  ASCII capitals and leaves every other byte.
\<close>

definition lower_char :: "char \<Rightarrow> char" where
  "lower_char c =
     (case map_of (zip ''ABCDEFGHIJKLMNOPQRSTUVWXYZ'' ''abcdefghijklmnopqrstuvwxyz'') c of
        Some l \<Rightarrow> l
      | None \<Rightarrow> c)"

definition lower :: "string \<Rightarrow> string" where
  "lower s = map lower_char s"

text \<open>
  The characters that \<open>str.strip()\<close> removes from both ends are those of
  \<open>str.isspace\<close>: U+0009 to U+000D, U+001C to U+0020, U+0085, U+00A0, U+1680, U+2000 to
  U+200A, U+2028, U+2029, U+202F, U+205F and U+3000, here in UTF-8. In a UTF-8 string
  one of these byte sequences at the front or at the end is that character.
\<close>

definition whitespace :: "string list" where
  "whitespace =
     [[CHR 0x09], [CHR 0x0A], [CHR 0x0B], [CHR 0x0C], [CHR 0x0D],
      [CHR 0x1C], [CHR 0x1D], [CHR 0x1E], [CHR 0x1F], [CHR 0x20],
      [CHR 0xC2, CHR 0x85], [CHR 0xC2, CHR 0xA0],
      [CHR 0xE1, CHR 0x9A, CHR 0x80],
      [CHR 0xE2, CHR 0x80, CHR 0x80], [CHR 0xE2, CHR 0x80, CHR 0x81],
      [CHR 0xE2, CHR 0x80, CHR 0x82], [CHR 0xE2, CHR 0x80, CHR 0x83],
      [CHR 0xE2, CHR 0x80, CHR 0x84], [CHR 0xE2, CHR 0x80, CHR 0x85],
      [CHR 0xE2, CHR 0x80, CHR 0x86], [CHR 0xE2, CHR 0x80, CHR 0x87],
      [CHR 0xE2, CHR 0x80, CHR 0x88], [CHR 0xE2, CHR 0x80, CHR 0x89],
      [CHR 0xE2, CHR 0x80, CHR 0x8A],
      [CHR 0xE2, CHR 0x80, CHR 0xA8], [CHR 0xE2, CHR 0x80, CHR 0xA9],
      [CHR 0xE2, CHR 0x80, CHR 0xAF],
      [CHR 0xE2, CHR 0x81, CHR 0x9F],
      [CHR 0xE3, CHR 0x80, CHR 0x80]]"

text \<open>
  \<open>space_width ws s\<close> is the number of bytes of the sequence of \<open>ws\<close> that \<open>s\<close> starts
  with, and 0 when it starts with none; \<open>strip_leading\<close> removes such sequences from
  the front until none is left. The end of the string is stripped on the reversed
  bytes.
\<close>

definition space_width :: "string list \<Rightarrow> string \<Rightarrow> nat" where
  "space_width ws s =
     (case find (\<lambda>w. take (length w) s = w) ws of Some w \<Rightarrow> length w | None \<Rightarrow> 0)"

fun strip_leading :: "string list \<Rightarrow> string \<Rightarrow> string" where
  "strip_leading ws [] = []"
| "strip_leading ws (c # cs) =
     (if space_width ws (c # cs) = 0 then c # cs
      else strip_leading ws (drop (space_width ws (c # cs) - 1) cs))"

definition strip :: "string \<Rightarrow> string" where
  "strip s = rev (strip_leading (map rev whitespace) (rev (strip_leading whitespace s)))"

definition ask :: "env \<Rightarrow> prompt \<Rightarrow> loop_state \<Rightarrow> string \<times> loop_state" where
  "ask env p st =
     (let answer = input env (inputs_read st)
      in (answer, st\<lparr>inputs_read := inputs_read st + 1,
                      trace := trace st @ [Input p answer]\<rparr>))"

text \<open>
  \<^verbatim>\<open>
  for change in suggestions['suggested_changes']:
      current_filters = apply_filter_change(current_filters, change)
  \<close>
  An exception leaves \<open>current_filters\<close> as the changes before it made them.
\<close>

fun apply_changes :: "filters \<Rightarrow> change list \<Rightarrow> py_error option \<times> filters" where
  "apply_changes current [] = (None, current)"
| "apply_changes current (c # cs) =
     (case apply_filter_change current c of
        Inl e \<Rightarrow> (Some e, current)
      | Inr new_filters \<Rightarrow> apply_changes new_filters cs)"

text \<open>
  The body of the \<open>try\<close> from line 240 on. The result is \<open>Inl e\<close> when \<open>e\<close> is raised,
  \<open>Inr None\<close> when control reaches the end of the \<open>try\<close>, and \<open>Inr (Some r)\<close> when
  the loop is left by \<open>break\<close> or \<open>return\<close>.
\<close>

definition apply_suggested_changes ::
  "env \<Rightarrow> suggestions \<Rightarrow> loop_state \<Rightarrow> (py_error + stop option) \<times> loop_state" where
  "apply_suggested_changes env sg st =
     (case suggested_changes sg of
        Unprintable e \<Rightarrow> (Inl e, st)
      | Changes cs \<Rightarrow>
          if cs = [] then (Inr None, st)
          else
            (let (apply, st) = ask env Apply_these_changes st
             in if lower apply = ''y'' then
                  (case apply_changes (current_filters st) cs of
                     (Some e, new_filters) \<Rightarrow> (Inl e, st\<lparr>current_filters := new_filters\<rparr>)
                   | (None, new_filters) \<Rightarrow> (Inr None, st\<lparr>current_filters := new_filters\<rparr>))
                else
                  (let (manual, st) = ask env Own_adjustments st
                   in if lower manual \<noteq> ''y'' then (Inr (Some Manual_declined), st)
                      else (Inr None, st))))"

text \<open>The body of the \<open>try\<close>, lines 209 to 258.\<close>

definition try_body ::
  "env \<Rightarrow> string \<Rightarrow> int \<Rightarrow> int \<Rightarrow> loop_state \<Rightarrow> (py_error + stop option) \<times> loop_state" where
  "try_body env goal iteration c st =
     (case get_ai_refinement_suggestions env
             (current_filters st) c goal iteration (previous_counts st) of
        Inl e \<Rightarrow> (Inl e, st)
      | Inr sg \<Rightarrow>
          if recommendation sg = ''proceed'' then (Inr (Some AI_proceed), st)
          else if recommendation sg = ''pivot'' then
            (let (user_input, st) = ask env Continue_anyway st
             in if lower user_input \<noteq> ''y'' then (Inr (Some Cancelled), st)
                else apply_suggested_changes env sg st)
          else apply_suggested_changes env sg st)"

text \<open>
  The \<open>except Exception\<close> handler, lines 260 to 272: the manual rule on the count.
  \<^verbatim>\<open>
  if count > 2000:   print("Suggestion: Add more filters to narrow results")
  elif count < 500:  print("Suggestion: Broaden filters or expand geography")
  else:              print("Lead count looks good!"); break
  \<close>
\<close>

datatype advice = Narrow | Broaden | Looks_good

definition manual_rule :: "int \<Rightarrow> advice" where
  "manual_rule c = (if c > 2000 then Narrow else if c < 500 then Broaden else Looks_good)"

definition except_handler :: "int \<Rightarrow> stop option" where
  "except_handler c =
     (case manual_rule c of
        Narrow \<Rightarrow> None
      | Broaden \<Rightarrow> None
      | Looks_good \<Rightarrow> Some Count_looks_good)"

text \<open>
  One pass through the body of the \<open>while\<close>, lines 191 to 272: \<open>None\<close> when control
  reaches \<open>iteration += 1\<close>, \<open>Some r\<close> when the loop is left. An exception of the
  preview is not caught.
\<close>

definition loop_body :: "env \<Rightarrow> string \<Rightarrow> int \<Rightarrow> loop_state \<Rightarrow> stop option \<times> loop_state" where
  "loop_body env goal iteration st =
     (let st = st\<lparr>trace := trace st @ [Preview_request (current_filters st)]\<rparr>
      in case preview_search env (length (previous_counts st)) (current_filters st) of
           Inl e \<Rightarrow> (Some (Uncaught e), st)
         | Inr c \<Rightarrow>
             (let st = st\<lparr>count := Some c, previous_counts := previous_counts st @ [c]\<rparr>
              in case try_body env goal iteration c st of
                   (Inl e, st) \<Rightarrow> (except_handler c, st)
                 | (Inr r, st) \<Rightarrow> (r, st)))"

text \<open>
  \<^verbatim>\<open>
  while iteration <= MAX_ITERATIONS:
      ...
      iteration += 1
  \<close>
  The result is the way the loop is left, with the final \<open>iteration\<close> and the state.
\<close>

function refinement_loop ::
  "env \<Rightarrow> string \<Rightarrow> int \<Rightarrow> int \<Rightarrow> loop_state \<Rightarrow> stop \<times> int \<times> loop_state" where
  "refinement_loop env goal mx iteration st =
     (if iteration \<le> mx then
        (case loop_body env goal iteration st of
           (Some r, st') \<Rightarrow> (r, iteration, st')
         | (None, st') \<Rightarrow> refinement_loop env goal mx (iteration + 1) st')
      else (Max_iterations, iteration, st))"
  by pat_completeness auto
termination
  by (relation "measure (\<lambda>(env, goal, mx, iteration, st). nat (mx + 1 - iteration))") auto

text \<open>
  The end of \<open>main\<close>, lines 279 to 336. After \<open>return\<close> in the loop or an uncaught
  exception nothing more happens. Otherwise the script prints the results (reading
  \<open>count\<close>, which is unbound when the loop body never ran), asks whether to proceed, and
  sends the enrichment request with \<open>"limit": min(count, 1000)\<close> only on \<open>yes\<close> or \<open>y\<close>.
\<close>

datatype ending =
    Enrichment_requested
  | Enrichment_cancelled
  | Refinement_cancelled
  | Raised py_error

definition final_decision :: "env \<Rightarrow> loop_state \<Rightarrow> ending \<times> loop_state" where
  "final_decision env st =
     (case count st of
        None \<Rightarrow> (Raised NameError, st)
      | Some c \<Rightarrow>
          (let (answer, st) = ask env Proceed_with_enrichment st;
               proceed = lower (strip answer)
           in if proceed \<in> set [''yes'', ''y''] then
                (Enrichment_requested,
                 st\<lparr>trace := trace st @ [Enrich_request (current_filters st) (min c 1000)]\<rparr>)
              else (Enrichment_cancelled, st)))"

definition initial_state :: "filters \<Rightarrow> loop_state" where
  "initial_state filters =
     \<lparr>current_filters = filters, previous_counts = [], count = None,
      inputs_read = 0, trace = []\<rparr>"

text \<open>\<open>main\<close> with its three literals (the goal, the starting filters, the bound) as parameters.\<close>

definition run :: "env \<Rightarrow> string \<Rightarrow> int \<Rightarrow> filters \<Rightarrow> ending \<times> loop_state" where
  "run env goal mx filters =
     (case refinement_loop env goal mx 1 (initial_state filters) of
        (Cancelled, iteration, st) \<Rightarrow> (Refinement_cancelled, st)
      | (Uncaught e, iteration, st) \<Rightarrow> (Raised e, st)
      | (r, iteration, st) \<Rightarrow> final_decision env st)"

definition goal_text :: string where
  "goal_text =
     CHR 0x0A # ''    Find CEOs and Founders at technology companies in Colorado that are:''
     @ CHR 0x0A # ''    - Growth stage (not too small, not too large)''
     @ CHR 0x0A # ''    - Likely to be open to sales outreach''
     @ CHR 0x0A # ''    - In a position to make purchasing decisions''
     @ CHR 0x0A # ''    ''"

definition starting_filters :: filters where
  "starting_filters =
     [''locations'' \<mapsto>
        JDict [''include'' \<mapsto> JList [JDict [''country'' \<mapsto> JStr ''US'', ''state'' \<mapsto> JStr ''CO'']],
               ''exclude'' \<mapsto> JList []],
      ''job_titles'' \<mapsto>
        JDict [''include'' \<mapsto> JList [JStr ''CEO'', JStr ''Chief Executive Officer'',
                                       JStr ''Founder'', JStr ''Co-Founder''],
               ''exclude'' \<mapsto> JList [JStr ''Assistant'', JStr ''Associate'']],
      ''management_levels'' \<mapsto> JList [JStr ''c_level'']]"


section \<open>The scripts \<open>simple_example.py\<close> and \<open>run_workflow_example\<close>\<close>

definition search_filters :: filters where
  "search_filters =
     [''locations'' \<mapsto>
        JDict [''include'' \<mapsto> JList [JDict [''country'' \<mapsto> JStr ''US'', ''state'' \<mapsto> JStr ''CO'']],
               ''exclude'' \<mapsto> JList []],
      ''job_titles'' \<mapsto>
        JDict [''include'' \<mapsto> JList [JStr ''CEO'', JStr ''Chief Executive Officer'',
                                       JStr ''Founder'', JStr ''Co-Founder'', JStr ''President''],
               ''exclude'' \<mapsto> JList [JStr ''Assistant to the CEO'', JStr ''Executive Assistant'']],
      ''management_levels'' \<mapsto> JList [JStr ''c_level''],
      ''company_size'' \<mapsto> JDict [''min'' \<mapsto> JInt 10, ''max'' \<mapsto> JInt 500]]"

text \<open>
  \<open>simple_example.py\<close> is a script without functions; the model returns how it ends
  and its requests and prompts in order. \<open>preview_search env 0 search_filters\<close> is the
  outcome of step 2: the count, an exception of the request, or \<open>SystemExit 1\<close> on a
  status other than 200. \<open>anthropic_key_set\<close> is the test that guards step 3; with
  a key the analysis runs inside \<open>try\<close> with \<open>except Exception\<close> and only prints.
  \<^verbatim>\<open>
  proceed = input("\nProceed with enrichment? (yes/no): ").strip().lower()
  if proceed not in ['yes', 'y']:
      ...
      exit(0)
  ...
  enrichment_limit = min(lead_count, 1000)
  \<close>
\<close>

definition simple_example :: "env \<Rightarrow> bool \<Rightarrow> ending \<times> event list" where
  "simple_example env anthropic_key_set =
     (let t = [Preview_request search_filters]
      in case preview_search env 0 search_filters of
           Inl e \<Rightarrow> (Raised e, t)
         | Inr lead_count \<Rightarrow>
             if \<not> anthropic_key_set \<and> lead_count = 0 then (Raised (SystemExit 1), t)
             else
               (let answer = input env 0;
                    t = t @ [Input Proceed_with_enrichment answer];
                    proceed = lower (strip answer)
                in if proceed \<notin> set [''yes'', ''y''] then (Raised (SystemExit 0), t)
                   else
                     (let enrichment_limit = min lead_count 1000
                      in (Enrichment_requested,
                          t @ [Enrich_request search_filters enrichment_limit]))))"

text \<open>
  \<open>run_workflow_example\<close> of \<open>instantly_workflow.py\<close> previews once and then asks the
  refiner up to three times. Its collaborators:
  \<^item> \<open>suggest_filters_from_description\<close>: the filters the model suggests, \<open>{}\<close> without a
    client or after an exception;
  \<^item> \<open>preview_leads\<close>: the \<open>count\<close> of the \<open>SearchResult\<close>, or the exception raised;
  \<^item> \<open>analyze_search_results env iteration\<close>: the truth value of
    \<open>analysis.get('proceed_with_enrichment')\<close>, or the exception raised while the
    analysis is printed (the method itself catches every exception);
  \<^item> \<open>workflow_input env k\<close>: the line typed at the \<open>k\<close>-th prompt.
\<close>

record workflow_env =
  suggest_filters_from_description :: "string \<Rightarrow> filters"
  preview_leads :: "filters \<Rightarrow> py_error + int"
  analyze_search_results :: "int \<Rightarrow> py_error + bool"
  workflow_input :: "nat \<Rightarrow> string"

definition manual_filters :: filters where
  "manual_filters =
     [''locations'' \<mapsto>
        JDict [''include'' \<mapsto> JList [JDict [''country'' \<mapsto> JStr ''US'', ''state'' \<mapsto> JStr ''CO'']],
               ''exclude'' \<mapsto> JList []],
      ''job_titles'' \<mapsto>
        JDict [''include'' \<mapsto> JList [JStr ''CEO'', JStr ''Chief Executive Officer'',
                                       JStr ''Founder'', JStr ''Co-Founder''],
               ''exclude'' \<mapsto> JList []],
      ''management_levels'' \<mapsto> JList [JStr ''c_level''],
      ''industries'' \<mapsto> JList [JStr ''Technology'', JStr ''Software'', JStr ''SaaS''],
      ''company_size'' \<mapsto> JDict [''min'' \<mapsto> JInt 10, ''max'' \<mapsto> JInt 200]]"

definition workflow_goal :: string where
  "workflow_goal =
     ''Find CEOs and founders of technology companies in Colorado with 10-200 employees''"

text \<open>
  \<^verbatim>\<open>
  for iteration in range(1, max_iterations + 1):
      analysis = refiner.analyze_search_results(result, goal, iteration)
      ...
      if analysis.get('proceed_with_enrichment'):
          break
      user_input = input("\nApply suggested changes and continue? (y/n): ")
      if user_input.lower() != 'y':
          break
  \<close>
  The arguments are the iterations still to run, the number of lines read and the
  events so far; the first component of the result is the exception raised, if any.
\<close>

fun workflow_iterations ::
  "workflow_env \<Rightarrow> int list \<Rightarrow> nat \<Rightarrow> event list \<Rightarrow> py_error option \<times> nat \<times> event list" where
  "workflow_iterations env [] k t = (None, k, t)"
| "workflow_iterations env (iteration # rest) k t =
     (case analyze_search_results env iteration of
        Inl e \<Rightarrow> (Some e, k, t)
      | Inr proceed_with_enrichment \<Rightarrow>
          if proceed_with_enrichment then (None, k, t)
          else
            (let user_input = workflow_input env k;
                 t = t @ [Input Apply_these_changes user_input]
             in if lower user_input \<noteq> ''y'' then (None, Suc k, t)
                else workflow_iterations env rest (Suc k) t))"

text \<open>
  \<^verbatim>\<open>
  proceed = input(f"\nProceed with enriching {result.count:,} leads? (y/n): ")
  if proceed.lower() == 'y':
      ...
      enrichment_job = instantly.enrich_leads(
          search_filters=search_filters,
          limit=min(result.count, 1000),  # Limit to 1000 for safety
          ...
  \<close>
\<close>

definition run_workflow_example :: "workflow_env \<Rightarrow> ending \<times> event list" where
  "run_workflow_example env =
     (let initial_filters = suggest_filters_from_description env workflow_goal;
          filters = (if initial_filters \<noteq> Map.empty then initial_filters else manual_filters);
          t = [Preview_request filters]
      in case preview_leads env filters of
           Inl e \<Rightarrow> (Raised e, t)
         | Inr result_count \<Rightarrow>
             (case workflow_iterations env [1, 2, 3] 0 t of
                (Some e, k, t) \<Rightarrow> (Raised e, t)
              | (None, k, t) \<Rightarrow>
                  (let proceed = workflow_input env k;
                       t = t @ [Input Proceed_with_enrichment proceed]
                   in if lower proceed = ''y'' then
                        (Enrichment_requested,
                         t @ [Enrich_request filters (min result_count 1000)])
                      else (Enrichment_cancelled, t))))"

section \<open>Counting the requests of a run\<close>

definition previews :: "event list \<Rightarrow> nat" where
  "previews t = length (filter (\<lambda>e. case e of Preview_request f \<Rightarrow> True | _ \<Rightarrow> False) t)"

definition enrichments :: "event list \<Rightarrow> nat" where
  "enrichments t = length (filter (\<lambda>e. case e of Enrich_request f l \<Rightarrow> True | _ \<Rightarrow> False) t)"

section \<open>Sample collaborators\<close>

text \<open>
  Four behaviours of the collaborators of \<open>main\<close>, used to run the model: a provider
  whose preview fails, an advisor that answers \<open>refine\<close> without changes, an advisor
  that answers \<open>proceed\<close> (with a user who confirms), and an advisor that fails (with a
  user who declines).
\<close>

definition provider_down :: env where
  "provider_down =
     \<lparr>preview_search = (\<lambda>n filters. Inl RequestError),
      get_ai_refinement_suggestions =
        (\<lambda>filters c goal iteration previous.
           Inr \<lparr>recommendation = ''proceed'', suggested_changes = Changes []\<rparr>),
      input = (\<lambda>k. ''y'')\<rparr>"

definition advisor_refines_nothing :: env where
  "advisor_refines_nothing =
     \<lparr>preview_search = (\<lambda>n filters. Inr 5000),
      get_ai_refinement_suggestions =
        (\<lambda>filters c goal iteration previous.
           Inr \<lparr>recommendation = ''refine'', suggested_changes = Changes []\<rparr>),
      input = (\<lambda>k. ''no'')\<rparr>"

definition advisor_proceeds :: env where
  "advisor_proceeds =
     \<lparr>preview_search = (\<lambda>n filters. Inr 1200),
      get_ai_refinement_suggestions =
        (\<lambda>filters c goal iteration previous.
           Inr \<lparr>recommendation = ''proceed'', suggested_changes = Changes []\<rparr>),
      input = (\<lambda>k. ''Yes'')\<rparr>"

definition advisor_down :: env where
  "advisor_down =
     \<lparr>preview_search = (\<lambda>n filters. Inr 2000),
      get_ai_refinement_suggestions = (\<lambda>filters c goal iteration previous. Inl RequestError),
      input = (\<lambda>k. ''no'')\<rparr>"

definition always_proceed ::
  "filters \<Rightarrow> int \<Rightarrow> string \<Rightarrow> int \<Rightarrow> int list \<Rightarrow> py_error + suggestions" where
  "always_proceed =
     (\<lambda>filters c goal iteration previous.
        Inr \<lparr>recommendation = ''proceed'', suggested_changes = Changes []\<rparr>)"

text \<open>
  A user who answers every prompt with a no-break space (U+00A0) followed by \<open>yes\<close>.
\<close>

definition confirms_after_no_break_space :: env where
  "confirms_after_no_break_space =
     \<lparr>preview_search = (\<lambda>n filters. Inr 1200),
      get_ai_refinement_suggestions = always_proceed,
      input = (\<lambda>k. CHR 0xC2 # CHR 0xA0 # ''yes'')\<rparr>"

definition workflow_sample :: workflow_env where
  "workflow_sample =
     \<lparr>suggest_filters_from_description = (\<lambda>description. Map.empty),
      preview_leads = (\<lambda>filters. Inr 2500),
      analyze_search_results = (\<lambda>iteration. Inr True),
      workflow_input = (\<lambda>k. ''Y'')\<rparr>"

section \<open>Properties of \<open>apply_filter_change\<close>\<close>

lemma apply_set:
  "apply_filter_change F \<lparr>change_filter = x, change_action = ''set'', change_value = Some v\<rparr>
     = Inr (F(x \<mapsto> v))"
  by (simp add: apply_filter_change_def)

lemma apply_remove:
  "apply_filter_change F \<lparr>change_filter = x, change_action = ''remove'', change_value = Some v\<rparr>
     = Inr (F(x := None))"
proof (cases "F x")
  case None
  then have "F(x := None) = F" by (simp add: fun_upd_idem)
  with None show ?thesis by (simp add: apply_filter_change_def)
next
  case (Some a)
  then show ?thesis by (simp add: apply_filter_change_def)
qed

text \<open>
  Claim C7. Applying the change \<open>{set, x, v}\<close> to a filter set \<open>F\<close> returns \<open>F\<close> with
  \<open>x\<close> mapped to \<open>v\<close>: the lookup of \<open>x\<close> gives \<open>v\<close>, and every other key has the value
  it has in \<open>F\<close> (or is absent as in \<open>F\<close>).
\<close>

theorem set_replaces_only_its_key:
  "\<exists>F'. apply_filter_change F
            \<lparr>change_filter = x, change_action = ''set'', change_value = Some v\<rparr> = Inr F'
        \<and> F' = F(x \<mapsto> v) \<and> F' x = Some v \<and> (\<forall>k. k \<noteq> x \<longrightarrow> F' k = F k)"
  by (simp add: apply_set)

theorem set_replaces_only_its_key_witness:
  "\<exists>F'. apply_filter_change [''a'' \<mapsto> JInt 1, ''b'' \<mapsto> JList []]
            \<lparr>change_filter = ''a'', change_action = ''set'', change_value = Some (JInt 2)\<rparr> = Inr F'
        \<and> F' ''a'' = Some (JInt 2) \<and> F' ''b'' = Some (JList []) \<and> F' ''c'' = None"
  using set_replaces_only_its_key
    [of "[''a'' \<mapsto> JInt 1, ''b'' \<mapsto> JList []]" "''a''" "JInt 2"]
  by auto

text \<open>
  Claim C9. Applying the change \<open>{remove, x, _}\<close> to a filter set \<open>F\<close> returns a filter
  set without \<open>x\<close> in which every other key is as in \<open>F\<close>; when \<open>x\<close> is absent from
  \<open>F\<close> the result is \<open>F\<close> itself, so removing twice is the same as removing once.
\<close>

theorem remove_deletes_and_is_idempotent:
  "\<exists>F'. apply_filter_change F
            \<lparr>change_filter = x, change_action = ''remove'', change_value = Some v\<rparr> = Inr F'
        \<and> F' x = None \<and> (\<forall>k. k \<noteq> x \<longrightarrow> F' k = F k)
        \<and> (F x = None \<longrightarrow> F' = F)
        \<and> apply_filter_change F'
            \<lparr>change_filter = x, change_action = ''remove'', change_value = Some w\<rparr> = Inr F'"
  by (simp add: apply_remove fun_upd_idem)

theorem remove_deletes_and_is_idempotent_witness:
  "[''b'' \<mapsto> JInt 1] ''a'' = None
   \<and> apply_filter_change [''b'' \<mapsto> JInt 1]
        \<lparr>change_filter = ''a'', change_action = ''remove'', change_value = Some JNull\<rparr>
       = Inr [''b'' \<mapsto> JInt 1]
   \<and> (\<exists>F'. apply_filter_change [''a'' \<mapsto> JInt 2, ''b'' \<mapsto> JInt 1]
              \<lparr>change_filter = ''a'', change_action = ''remove'', change_value = Some JNull\<rparr>
             = Inr F'
           \<and> F' ''a'' = None \<and> F' ''b'' = Some (JInt 1))"
  using remove_deletes_and_is_idempotent [of "[''b'' \<mapsto> JInt 1]" "''a''" JNull JNull]
        remove_deletes_and_is_idempotent
          [of "[''a'' \<mapsto> JInt 2, ''b'' \<mapsto> JInt 1]" "''a''" JNull JNull]
  by auto

text \<open>
  Claim C2. The claim says that \<open>{add, x, v}\<close> succeeds when \<open>x\<close> is absent, and that
  adding a list then leaves \<open>x\<close> holding that list. The code creates the absent
  category as an empty dict before it looks at the kind of the value, so the later
  creation as an empty list never runs and \<open>extend\<close> is looked up on a dict: adding
  the list \<open>["SaaS"]\<close> to the empty filter set raises \<open>AttributeError\<close>.
\<close>

theorem add_list_to_absent_category_raises:
  "apply_filter_change Map.empty
     \<lparr>change_filter = ''industries'', change_action = ''add'',
      change_value = Some (JList [JStr ''SaaS''])\<rparr> = Inl AttributeError"
  by (simp add: apply_filter_change_def list_extend_def)

section \<open>What one pass of the loop does to the state\<close>

lemma previews_append [simp]: "previews (t @ u) = previews t + previews u"
  by (simp add: previews_def)

lemma enrichments_append [simp]: "enrichments (t @ u) = enrichments t + enrichments u"
  by (simp add: enrichments_def)

lemma previews_simps [simp]:
  "previews [] = 0"
  "previews (Preview_request f # t) = Suc (previews t)"
  "previews (Input p a # t) = previews t"
  "previews (Enrich_request f l # t) = previews t"
  by (simp_all add: previews_def)

lemma enrichments_simps [simp]:
  "enrichments [] = 0"
  "enrichments (Preview_request f # t) = enrichments t"
  "enrichments (Input p a # t) = enrichments t"
  "enrichments (Enrich_request f l # t) = Suc (enrichments t)"
  by (simp_all add: enrichments_def)

lemma enrichments_0_iff: "enrichments t = 0 \<longleftrightarrow> (\<forall>f l. Enrich_request f l \<notin> set t)"
  by (induction t) (auto simp: enrichments_def split: event.splits)

lemma enrich_in_trace: "enrichments t = 0 \<Longrightarrow> Enrich_request f l \<notin> set t"
  by (simp add: enrichments_0_iff)

lemma ask_fields:
  assumes "ask env p st = (a, st')"
  shows "a = input env (inputs_read st)"
    and "trace st' = trace st @ [Input p a]"
    and "inputs_read st' = Suc (inputs_read st)"
    and "current_filters st' = current_filters st"
    and "previous_counts st' = previous_counts st"
    and "count st' = count st"
  using assms by (auto simp: ask_def Let_def)

lemma apply_suggested_changes_keeps:
  assumes "apply_suggested_changes env sg st = (r, st')"
  shows "previews (trace st') = previews (trace st)"
    and "enrichments (trace st') = enrichments (trace st)"
    and "previous_counts st' = previous_counts st"
    and "count st' = count st"
  using assms
  by (auto simp: apply_suggested_changes_def ask_def Let_def
           split: suggested.splits if_splits prod.splits option.splits)

lemma try_body_keeps:
  assumes "try_body env goal it c st = (r, st')"
  shows "previews (trace st') = previews (trace st)"
    and "enrichments (trace st') = enrichments (trace st)"
    and "previous_counts st' = previous_counts st"
    and "count st' = count st"
  using assms
  by (auto simp: try_body_def ask_def Let_def
           split: sum.splits if_splits prod.splits
           dest: apply_suggested_changes_keeps)

lemma loop_body_effect:
  assumes "loop_body env goal it st = (r, st')"
  shows "previews (trace st') = Suc (previews (trace st))"
    and "enrichments (trace st') = enrichments (trace st)"
  using assms
  by (auto simp: loop_body_def Let_def split: sum.splits prod.splits dest: try_body_keeps)

lemma loop_body_count:
  assumes body: "loop_body env goal it st = (r, st')"
      and inv: "count st = (if previous_counts st = [] then None else Some (last (previous_counts st)))"
  shows "count st' = (if previous_counts st' = [] then None else Some (last (previous_counts st')))"
proof (cases "preview_search env (length (previous_counts st)) (current_filters st)")
  case (Inl e)
  with body have "st' = st\<lparr>trace := trace st @ [Preview_request (current_filters st)]\<rparr>"
    by (simp add: loop_body_def Let_def)
  with inv show ?thesis by simp
next
  case (Inr c)
  define st1 where "st1 = st\<lparr>trace := trace st @ [Preview_request (current_filters st)],
                              count := Some c, previous_counts := previous_counts st @ [c]\<rparr>"
  obtain x st2 where tb: "try_body env goal it c st1 = (x, st2)"
    by (cases "try_body env goal it c st1")
  from body Inr tb have "st' = st2"
    by (auto simp: loop_body_def Let_def st1_def split: sum.splits)
  moreover from tb have "previous_counts st2 = previous_counts st1" "count st2 = count st1"
    by (rule try_body_keeps)+
  ultimately show ?thesis by (simp add: st1_def)
qed


section \<open>Invariants of the loop\<close>

lemma refinement_loop_previews:
  "refinement_loop env goal mx it st = (r, it', st') \<Longrightarrow>
     previews (trace st') \<le> previews (trace st) + nat (mx + 1 - it)"
proof (induction env goal mx it st rule: refinement_loop.induct)
  case (1 env goal mx iteration st)
  show ?case
  proof (cases "iteration \<le> mx")
    case False
    with "1.prems" show ?thesis by simp
  next
    case True
    obtain b st1 where body: "loop_body env goal iteration st = (b, st1)"
      by (cases "loop_body env goal iteration st")
    have p1: "previews (trace st1) = Suc (previews (trace st))"
      using body by (rule loop_body_effect)
    show ?thesis
    proof (cases b)
      case (Some x)
      with True body "1.prems" have "st' = st1" by simp
      with p1 True show ?thesis by simp
    next
      case None
      with True body "1.prems"
      have "refinement_loop env goal mx (iteration + 1) st1 = (r, it', st')" by simp
      with "1.IH" [OF True body [symmetric] None] 
      have "previews (trace st') \<le> previews (trace st1) + nat (mx + 1 - (iteration + 1))"
        by simp
      with p1 True show ?thesis by simp
    qed
  qed
qed

lemma refinement_loop_invariant:
  assumes "refinement_loop env goal mx it st = (r, it', st')"
      and "P st"
      and "\<And>i s b s'. P s \<Longrightarrow> loop_body env goal i s = (b, s') \<Longrightarrow> P s'"
  shows "P st'"
  using assms
proof (induction env goal mx it st rule: refinement_loop.induct)
  case (1 env goal mx iteration st)
  note step = "1.prems"(3)
  show ?case
  proof (cases "iteration \<le> mx")
    case False
    with "1.prems" show ?thesis by simp
  next
    case True
    obtain b st1 where body: "loop_body env goal iteration st = (b, st1)"
      by (cases "loop_body env goal iteration st")
    have P1: "P st1" using "1.prems"(2) body by (rule step)
    show ?thesis
    proof (cases b)
      case (Some x)
      with True body "1.prems"(1) have "st' = st1" by simp
      with P1 show ?thesis by simp
    next
      case None
      with True body "1.prems"(1)
      have "refinement_loop env goal mx (iteration + 1) st1 = (r, it', st')" by simp
      from "1.IH" [OF True body [symmetric] None this P1 step] show ?thesis .
    qed
  qed
qed

lemma refinement_loop_enrichments:
  assumes "refinement_loop env goal mx it st = (r, it', st')"
  shows "enrichments (trace st') = enrichments (trace st)"
  using assms
  by (rule refinement_loop_invariant [where P = "\<lambda>s. enrichments (trace s) = enrichments (trace st)"])
     (auto dest: loop_body_effect(2))

lemma refinement_loop_count:
  assumes "refinement_loop env goal mx it st = (r, it', st')"
      and "count st = (if previous_counts st = [] then None else Some (last (previous_counts st)))"
  shows "count st' = (if previous_counts st' = [] then None else Some (last (previous_counts st')))"
  using assms
  by (rule refinement_loop_invariant
        [where P = "\<lambda>s. count s = (if previous_counts s = [] then None else Some (last (previous_counts s)))"])
     (rule loop_body_count)


section \<open>The end of a run\<close>

lemma final_decision_cases:
  assumes "final_decision env st = (e, st')"
  shows "(e = Raised NameError \<and> count st = None \<and> st' = st)
       \<or> (e = Enrichment_cancelled \<and> count st \<noteq> None
            \<and> lower (strip (input env (inputs_read st))) \<notin> {''yes'', ''y''}
            \<and> trace st' = trace st @ [Input Proceed_with_enrichment (input env (inputs_read st))])
       \<or> (\<exists>c. e = Enrichment_requested \<and> count st = Some c
            \<and> lower (strip (input env (inputs_read st))) \<in> {''yes'', ''y''}
            \<and> trace st' = trace st @ [Input Proceed_with_enrichment (input env (inputs_read st)),
                                        Enrich_request (current_filters st) (min c 1000)])"
  using assms
  by (auto simp: final_decision_def ask_def Let_def split: option.splits if_splits)

lemma final_decision_more:
  assumes "final_decision env st = (e, st')"
  shows "previews (trace st') = previews (trace st)"
    and "previous_counts st' = previous_counts st"
    and "current_filters st' = current_filters st"
  using assms
  by (auto simp: final_decision_def ask_def Let_def split: option.splits if_splits)

lemma run_cases:
  assumes loop: "refinement_loop env goal mx 1 (initial_state F) = (r, it, st)"
      and run: "run env goal mx F = (e, st')"
  shows "(r = Cancelled \<and> e = Refinement_cancelled \<and> st' = st)
       \<or> (\<exists>x. r = Uncaught x \<and> e = Raised x \<and> st' = st)
       \<or> (r \<in> {AI_proceed, Manual_declined, Count_looks_good, Max_iterations}
            \<and> final_decision env st = (e, st'))"
  using assms by (cases r) (auto simp: run_def)

lemma run_enrich_limit:
  assumes "run env goal mx F = (e, st')"
      and "Enrich_request f l \<in> set (trace st')"
  shows "previous_counts st' \<noteq> []
       \<and> l = min (last (previous_counts st')) 1000
       \<and> f = current_filters st'"
proof -
  obtain r it st where loop: "refinement_loop env goal mx 1 (initial_state F) = (r, it, st)"
    by (cases "refinement_loop env goal mx 1 (initial_state F)")
  from refinement_loop_enrichments [OF loop]
  have "enrichments (trace st) = 0" by (simp add: initial_state_def)
  then have none: "Enrich_request f l \<notin> set (trace st)" by (rule enrich_in_trace)
  have inv: "count st = (if previous_counts st = [] then None else Some (last (previous_counts st)))"
    by (rule refinement_loop_count [OF loop]) (simp add: initial_state_def)
  from run_cases [OF loop assms(1)] none assms(2)
  have fd: "final_decision env st = (e, st')" by auto
  from final_decision_cases [OF fd] none assms(2)
  obtain c where c: "count st = Some c"
    and tr: "trace st' = trace st @ [Input Proceed_with_enrichment (input env (inputs_read st)),
                                        Enrich_request (current_filters st) (min c 1000)]"
    by auto
  from tr none assms(2) have fl: "f = current_filters st" "l = min c 1000" by auto
  from c inv have pc: "previous_counts st \<noteq> []" "last (previous_counts st) = c"
    by (auto split: if_splits)
  from final_decision_more [OF fd] pc fl show ?thesis by simp
qed

lemma simple_example_cases:
  assumes "simple_example env key = (e, t)"
  shows "(enrichments t = 0 \<and> e \<noteq> Enrichment_requested)
       \<or> (\<exists>c. preview_search env 0 search_filters = Inr c
              \<and> lower (strip (input env 0)) \<in> {''yes'', ''y''}
              \<and> e = Enrichment_requested
              \<and> t = [Preview_request search_filters, Input Proceed_with_enrichment (input env 0),
                      Enrich_request search_filters (min c 1000)])"
  using assms
  by (auto simp: simple_example_def Let_def split: sum.splits if_splits)

lemma simple_example_enrich_limit:
  assumes "simple_example env key = (e, t)"
      and "Enrich_request f l \<in> set t"
  shows "\<exists>c. preview_search env 0 search_filters = Inr c \<and> l = min c 1000 \<and> f = search_filters"
  using simple_example_cases [OF assms(1)] assms(2)
  by (auto dest: enrich_in_trace)

lemma workflow_iterations_trace:
  "workflow_iterations env its k t = (x, k', t') \<Longrightarrow>
     enrichments t' = enrichments t \<and> previews t' = previews t"
proof (induction env its k t rule: workflow_iterations.induct)
  case (1 env k t)
  then show ?case by simp
next
  case (2 env iteration rest k t)
  show ?case
  proof (cases "analyze_search_results env iteration")
    case (Inl e)
    with "2.prems" show ?thesis by simp
  next
    case (Inr b)
    show ?thesis
    proof (cases "b \<or> lower (workflow_input env k) \<noteq> ''y''")
      case True
      with Inr "2.prems" show ?thesis by (auto simp: Let_def split: if_splits)
    next
      case False
      with Inr "2.prems"
      have "workflow_iterations env rest (Suc k)
              (t @ [Input Apply_these_changes (workflow_input env k)]) = (x, k', t')"
        by (simp add: Let_def)
      from "2.IH" [OF Inr _ refl refl _ this] False show ?thesis by simp
    qed
  qed
qed

lemma run_workflow_example_cases:
  assumes "run_workflow_example env = (e, t)"
  shows "(enrichments t = 0 \<and> e \<noteq> Enrichment_requested)
       \<or> (\<exists>F c x k pre. preview_leads env F = Inr c
              \<and> workflow_iterations env [1, 2, 3] 0 [Preview_request F] = (x, k, pre)
              \<and> lower (workflow_input env k) = ''y''
              \<and> e = Enrichment_requested
              \<and> enrichments pre = 0 \<and> previews pre = 1
              \<and> t = pre @ [Input Proceed_with_enrichment (workflow_input env k),
                          Enrich_request F (min c 1000)])"
proof -
  define F where "F = (if suggest_filters_from_description env workflow_goal \<noteq> Map.empty
                       then suggest_filters_from_description env workflow_goal
                       else manual_filters)"
  have unfold: "run_workflow_example env =
     (case preview_leads env F of
        Inl e \<Rightarrow> (Raised e, [Preview_request F])
      | Inr result_count \<Rightarrow>
          (case workflow_iterations env [1, 2, 3] 0 [Preview_request F] of
             (Some e, k, t) \<Rightarrow> (Raised e, t)
           | (None, k, t) \<Rightarrow>
               if lower (workflow_input env k) = ''y'' then
                 (Enrichment_requested,
                  t @ [Input Proceed_with_enrichment (workflow_input env k),
                       Enrich_request F (min result_count 1000)])
               else (Enrichment_cancelled,
                     t @ [Input Proceed_with_enrichment (workflow_input env k)])))"
    unfolding run_workflow_example_def Let_def F_def
    by (simp split: sum.splits prod.splits option.splits del: workflow_iterations.simps)
  show ?thesis
  proof (cases "preview_leads env F")
    case (Inl err)
    with assms unfold have "e = Raised err" "t = [Preview_request F]" by simp_all
    then show ?thesis by simp
  next
    case (Inr c)
    obtain x k pre where it: "workflow_iterations env [1, 2, 3] 0 [Preview_request F] = (x, k, pre)"
      by (cases "workflow_iterations env [1, 2, 3] 0 [Preview_request F]")
    from workflow_iterations_trace [OF it]
    have pre: "enrichments pre = 0" "previews pre = 1" by simp_all
    show ?thesis
    proof (cases x)
      case (Some err)
      with assms unfold Inr it have "e = Raised err" "t = pre"
        by (simp_all del: workflow_iterations.simps)
      with pre show ?thesis by simp
    next
      case None
      show ?thesis
      proof (cases "lower (workflow_input env k) = ''y''")
        case True
        with None assms unfold Inr it
        have "e = Enrichment_requested"
          "t = pre @ [Input Proceed_with_enrichment (workflow_input env k),
                      Enrich_request F (min c 1000)]"
          by (simp_all del: workflow_iterations.simps)
        with Inr it True pre show ?thesis by blast
      next
        case False
        with None assms unfold Inr it
        have "e = Enrichment_cancelled"
          "t = pre @ [Input Proceed_with_enrichment (workflow_input env k)]"
          by (simp_all del: workflow_iterations.simps)
        with pre show ?thesis by simp
      qed
    qed
  qed
qed

lemma run_workflow_example_enrich_limit:
  assumes "run_workflow_example env = (e, t)"
      and "Enrich_request f l \<in> set t"
  shows "\<exists>c. preview_leads env f = Inr c \<and> l = min c 1000"
  using run_workflow_example_cases [OF assms(1)] assms(2)
  by (auto dest: enrich_in_trace)


section \<open>The sample runs\<close>

lemma yes_is_affirmative: "lower (strip ''Yes'') = ''yes''"
  by (simp add: lower_def lower_char_def strip_def whitespace_def space_width_def)

lemma no_is_not_affirmative: "lower (strip ''no'') = ''no''"
  by (simp add: lower_def lower_char_def strip_def whitespace_def space_width_def)

lemma no_break_space_yes_is_affirmative:
  "lower (strip (CHR 0xC2 # CHR 0xA0 # ''yes'')) = ''yes''"
  by (simp add: lower_def lower_char_def strip_def whitespace_def space_width_def)

lemma loop_confirms_after_no_break_space:
  "refinement_loop confirms_after_no_break_space goal_text MAX_ITERATIONS 1
       (initial_state starting_filters)
     = (AI_proceed, 1,
        \<lparr>current_filters = starting_filters, previous_counts = [1200], count = Some 1200,
         inputs_read = 0, trace = [Preview_request starting_filters]\<rparr>)"
  by (simp add: MAX_ITERATIONS_def initial_state_def confirms_after_no_break_space_def
                always_proceed_def loop_body_def try_body_def)

lemma run_confirms_after_no_break_space:
  "run confirms_after_no_break_space goal_text MAX_ITERATIONS starting_filters
     = (Enrichment_requested,
        \<lparr>current_filters = starting_filters, previous_counts = [1200], count = Some 1200,
         inputs_read = 1,
         trace = [Preview_request starting_filters,
                  Input Proceed_with_enrichment (CHR 0xC2 # CHR 0xA0 # ''yes''),
                  Enrich_request starting_filters 1000]\<rparr>)"
  unfolding run_def loop_confirms_after_no_break_space
  using no_break_space_yes_is_affirmative
  by (simp add: final_decision_def ask_def Let_def confirms_after_no_break_space_def)

lemma simple_example_confirms_after_no_break_space:
  "simple_example confirms_after_no_break_space False
     = (Enrichment_requested,
        [Preview_request search_filters,
         Input Proceed_with_enrichment (CHR 0xC2 # CHR 0xA0 # ''yes''),
         Enrich_request search_filters 1000])"
  using no_break_space_yes_is_affirmative
  by (simp add: simple_example_def confirms_after_no_break_space_def Let_def)

lemma loop_advisor_proceeds:
  "refinement_loop advisor_proceeds goal_text MAX_ITERATIONS 1 (initial_state starting_filters)
     = (AI_proceed, 1,
        \<lparr>current_filters = starting_filters, previous_counts = [1200], count = Some 1200,
         inputs_read = 0, trace = [Preview_request starting_filters]\<rparr>)"
  by (simp add: MAX_ITERATIONS_def initial_state_def advisor_proceeds_def loop_body_def
                try_body_def)

lemma run_advisor_proceeds:
  "run advisor_proceeds goal_text MAX_ITERATIONS starting_filters
     = (Enrichment_requested,
        \<lparr>current_filters = starting_filters, previous_counts = [1200], count = Some 1200,
         inputs_read = 1,
         trace = [Preview_request starting_filters, Input Proceed_with_enrichment ''Yes'',
                  Enrich_request starting_filters 1000]\<rparr>)"
  using yes_is_affirmative
  by (simp add: run_def MAX_ITERATIONS_def initial_state_def advisor_proceeds_def loop_body_def
                try_body_def final_decision_def ask_def Let_def)

lemma simple_example_advisor_proceeds:
  "simple_example advisor_proceeds False
     = (Enrichment_requested,
        [Preview_request search_filters, Input Proceed_with_enrichment ''Yes'',
         Enrich_request search_filters 1000])"
  using yes_is_affirmative
  by (simp add: simple_example_def advisor_proceeds_def Let_def)

lemma run_workflow_sample:
  "run_workflow_example workflow_sample
     = (Enrichment_requested,
        [Preview_request manual_filters, Input Proceed_with_enrichment ''Y'',
         Enrich_request manual_filters 1000])"
  by (simp add: run_workflow_example_def workflow_sample_def Let_def lower_def lower_char_def)

lemma loop_advisor_down:
  "refinement_loop advisor_down goal_text MAX_ITERATIONS 1 (initial_state starting_filters)
     = (Count_looks_good, 1,
        \<lparr>current_filters = starting_filters, previous_counts = [2000], count = Some 2000,
         inputs_read = 0, trace = [Preview_request starting_filters]\<rparr>)"
  by (simp add: MAX_ITERATIONS_def initial_state_def advisor_down_def loop_body_def
                try_body_def except_handler_def manual_rule_def)

lemma run_advisor_down:
  "run advisor_down goal_text MAX_ITERATIONS starting_filters
     = (Enrichment_cancelled,
        \<lparr>current_filters = starting_filters, previous_counts = [2000], count = Some 2000,
         inputs_read = 1,
         trace = [Preview_request starting_filters, Input Proceed_with_enrichment ''no'']\<rparr>)"
  unfolding run_def loop_advisor_down using no_is_not_affirmative
  by (simp add: final_decision_def ask_def Let_def advisor_down_def)

lemma simple_example_advisor_down:
  "simple_example advisor_down False
     = (Raised (SystemExit 0),
        [Preview_request search_filters, Input Proceed_with_enrichment ''no''])"
  using no_is_not_affirmative
  by (simp add: simple_example_def advisor_down_def Let_def)


section \<open>Properties of the refinement loop\<close>

text \<open>
  Claim C4. For every behaviour of the provider, the advisor and the user, every goal,
  every starting filter set and every bound \<open>mx\<close>, the loop started at iteration 1 ends
  (\<open>refinement_loop\<close> is a total function: each pass raises \<open>iteration\<close> by one towards
  \<open>mx\<close>), and it has called \<open>preview_search\<close> at most \<open>mx\<close> times when it ends; the
  rest of the run adds no preview.
\<close>

theorem loop_bounded_by_max_iterations:
  "previews (trace (snd (snd (refinement_loop env goal mx 1 (initial_state F))))) \<le> nat mx
   \<and> previews (trace (snd (run env goal mx F))) \<le> nat mx"
proof -
  obtain r it st where loop: "refinement_loop env goal mx 1 (initial_state F) = (r, it, st)"
    by (cases "refinement_loop env goal mx 1 (initial_state F)")
  obtain e st' where run: "run env goal mx F = (e, st')"
    by (cases "run env goal mx F")
  from refinement_loop_previews [OF loop]
  have b: "previews (trace st) \<le> nat mx" by (simp add: initial_state_def)
  from run_cases [OF loop run] have "previews (trace st') = previews (trace st)"
    by (auto dest: final_decision_more(1))
  with b loop run show ?thesis by simp
qed




text \<open>
  Claim C3, as the code has it. When the preview returns a count and the advisor
  answers \<open>refine\<close> with no suggested changes, the pass ends without \<open>break\<close>: nothing
  is asked, the filters are unchanged, the count is appended to the history, and the
  loop goes on with the next iteration.
\<close>

theorem empty_refine_goes_to_next_iteration:
  assumes "preview_search env (length (previous_counts st)) (current_filters st) = Inr c"
      and "get_ai_refinement_suggestions env (current_filters st) c goal iteration
             (previous_counts st @ [c]) = Inr sg"
      and "recommendation sg = ''refine''"
      and "suggested_changes sg = Changes []"
  shows "loop_body env goal iteration st
           = (None, st\<lparr>trace := trace st @ [Preview_request (current_filters st)],
                        count := Some c, previous_counts := previous_counts st @ [c]\<rparr>)
       \<and> (iteration \<le> mx \<longrightarrow>
            refinement_loop env goal mx iteration st
              = refinement_loop env goal mx (iteration + 1)
                  (st\<lparr>trace := trace st @ [Preview_request (current_filters st)],
                      count := Some c, previous_counts := previous_counts st @ [c]\<rparr>))"
proof -
  have body: "loop_body env goal iteration st
           = (None, st\<lparr>trace := trace st @ [Preview_request (current_filters st)],
                        count := Some c, previous_counts := previous_counts st @ [c]\<rparr>)"
    using assms by (simp add: loop_body_def Let_def try_body_def apply_suggested_changes_def)
  then show ?thesis by simp
qed

theorem empty_refine_goes_to_next_iteration_witness:
  "preview_search advisor_refines_nothing 0 starting_filters = Inr 5000
   \<and> (1::int) \<le> MAX_ITERATIONS
   \<and> loop_body advisor_refines_nothing goal_text 1 (initial_state starting_filters)
       = (None, \<lparr>current_filters = starting_filters, previous_counts = [5000],
                 count = Some 5000, inputs_read = 0,
                 trace = [Preview_request starting_filters]\<rparr>)
   \<and> refinement_loop advisor_refines_nothing goal_text MAX_ITERATIONS 1 (initial_state starting_filters)
       = refinement_loop advisor_refines_nothing goal_text MAX_ITERATIONS 2
           \<lparr>current_filters = starting_filters, previous_counts = [5000],
            count = Some 5000, inputs_read = 0,
            trace = [Preview_request starting_filters]\<rparr>"
proof -
  let ?sg = "\<lparr>recommendation = ''refine'', suggested_changes = Changes []\<rparr>"
  have h1: "preview_search advisor_refines_nothing
              (length (previous_counts (initial_state starting_filters)))
              (current_filters (initial_state starting_filters)) = Inr 5000"
    by (simp add: advisor_refines_nothing_def)
  have h2: "get_ai_refinement_suggestions advisor_refines_nothing
              (current_filters (initial_state starting_filters)) 5000 goal_text 1
              (previous_counts (initial_state starting_filters) @ [5000]) = Inr ?sg"
    by (simp add: advisor_refines_nothing_def)
  have h3: "recommendation ?sg = ''refine''" by simp
  have h4: "suggested_changes ?sg = Changes []" by simp
  have h5: "(1::int) \<le> MAX_ITERATIONS" by (simp add: MAX_ITERATIONS_def)
  from empty_refine_goes_to_next_iteration [OF h1 h2 h3 h4, of MAX_ITERATIONS] h5
  have "loop_body advisor_refines_nothing goal_text 1 (initial_state starting_filters)
          = (None, (initial_state starting_filters)
               \<lparr>trace := trace (initial_state starting_filters)
                    @ [Preview_request (current_filters (initial_state starting_filters))],
                count := Some 5000,
                previous_counts := previous_counts (initial_state starting_filters) @ [5000]\<rparr>)"
    and "refinement_loop advisor_refines_nothing goal_text MAX_ITERATIONS 1 (initial_state starting_filters)
          = refinement_loop advisor_refines_nothing goal_text MAX_ITERATIONS (1 + 1)
            ((initial_state starting_filters)
               \<lparr>trace := trace (initial_state starting_filters)
                    @ [Preview_request (current_filters (initial_state starting_filters))],
                count := Some 5000,
                previous_counts := previous_counts (initial_state starting_filters) @ [5000]\<rparr>)"
    by blast+
  then show ?thesis
    using h5 by (simp add: initial_state_def advisor_refines_nothing_def)
qed

text \<open>
  Claim C3 as stated says that such an answer stops the loop like \<open>proceed\<close>. With an
  advisor that always answers \<open>refine\<close> without changes, the first pass does not leave
  the loop, and the loop runs all five iterations on the same filters.
\<close>

theorem empty_refine_continues_counterexample:
  "fst (loop_body advisor_refines_nothing goal_text 1 (initial_state starting_filters)) = None
   \<and> refinement_loop advisor_refines_nothing goal_text MAX_ITERATIONS 1 (initial_state starting_filters)
       = (Max_iterations, 6,
          \<lparr>current_filters = starting_filters,
           previous_counts = [5000, 5000, 5000, 5000, 5000], count = Some 5000, inputs_read = 0,
           trace = [Preview_request starting_filters, Preview_request starting_filters,
                    Preview_request starting_filters, Preview_request starting_filters,
                    Preview_request starting_filters]\<rparr>)"
  by (simp add: MAX_ITERATIONS_def initial_state_def advisor_refines_nothing_def
                loop_body_def try_body_def apply_suggested_changes_def)

text \<open>
  Claim C5, as the code has it. If the advisor answers \<open>proceed\<close> whenever it is asked,
  and the first preview returns a count \<open>c\<close>, then for every bound \<open>mx \<ge> 1\<close> the loop is
  left in iteration 1 by the \<open>break\<close> after "AI recommends proceeding", after exactly
  one preview, with the history \<open>[c]\<close> and the filters unchanged.
\<close>

theorem always_proceed_stops_at_first_iteration:
  assumes "1 \<le> mx"
      and "preview_search env 0 F = Inr c"
      and "\<forall>filters n g i previous. \<exists>sg.
             get_ai_refinement_suggestions env filters n g i previous = Inr sg
             \<and> recommendation sg = ''proceed''"
  shows "refinement_loop env goal mx 1 (initial_state F)
           = (AI_proceed, 1,
              \<lparr>current_filters = F, previous_counts = [c], count = Some c,
               inputs_read = 0, trace = [Preview_request F]\<rparr>)"
proof -
  from assms(3) obtain sg where
    "get_ai_refinement_suggestions env F c goal 1 [c] = Inr sg" "recommendation sg = ''proceed''"
    by blast
  with assms(1,2) show ?thesis
    by (simp add: initial_state_def loop_body_def try_body_def Let_def)
qed

theorem always_proceed_stops_at_first_iteration_witness:
  "(1::int) \<le> MAX_ITERATIONS
   \<and> preview_search advisor_proceeds 0 starting_filters = Inr 1200
   \<and> refinement_loop advisor_proceeds goal_text MAX_ITERATIONS 1 (initial_state starting_filters)
       = (AI_proceed, 1,
          \<lparr>current_filters = starting_filters, previous_counts = [1200], count = Some 1200,
           inputs_read = 0, trace = [Preview_request starting_filters]\<rparr>)"
proof -
  have h1: "(1::int) \<le> MAX_ITERATIONS" by (simp add: MAX_ITERATIONS_def)
  have h2: "preview_search advisor_proceeds 0 starting_filters = Inr 1200"
    by (simp add: advisor_proceeds_def)
  have h3: "\<forall>filters n g i previous. \<exists>sg.
             get_ai_refinement_suggestions advisor_proceeds filters n g i previous = Inr sg
             \<and> recommendation sg = ''proceed''"
    by (simp add: advisor_proceeds_def)
  from always_proceed_stops_at_first_iteration [OF h1 h2 h3, of goal_text] h1 h2
  show ?thesis by simp
qed

text \<open>
  Claim C5 as stated asks nothing of the preview. With an advisor that answers
  \<open>proceed\<close> on every call and a provider whose preview fails, the advisor is never
  asked: the loop is left in iteration 1 with the exception of the preview, an empty
  history and no \<open>break\<close> after "AI recommends proceeding".
\<close>

theorem always_proceed_without_preview_counterexample:
  "get_ai_refinement_suggestions provider_down = always_proceed
   \<and> refinement_loop provider_down goal_text MAX_ITERATIONS 1 (initial_state starting_filters)
       = (Uncaught RequestError, 1,
          \<lparr>current_filters = starting_filters, previous_counts = [], count = None,
           inputs_read = 0, trace = [Preview_request starting_filters]\<rparr>)"
  by (simp add: provider_down_def always_proceed_def MAX_ITERATIONS_def initial_state_def
                loop_body_def)

text \<open>
  Claim C6. When the advisory call fails in an iteration whose preview returned the
  count \<open>c\<close>, the manual rule decides: above 2000 it suggests narrowing and the loop
  goes on; below 500 it suggests broadening and the loop goes on; for every \<open>c\<close> with
  \<open>500 \<le> c \<le> 2000\<close> it finds the count good and leaves the loop. The filters are not
  changed in any of the three cases.
\<close>

theorem manual_fallback_rule:
  assumes "preview_search env (length (previous_counts st)) (current_filters st) = Inr c"
      and "get_ai_refinement_suggestions env (current_filters st) c goal iteration
             (previous_counts st @ [c]) = Inl e"
  shows "(c > 2000 \<longrightarrow> manual_rule c = Narrow \<and> fst (loop_body env goal iteration st) = None)
       \<and> (c < 500 \<longrightarrow> manual_rule c = Broaden \<and> fst (loop_body env goal iteration st) = None)
       \<and> (500 \<le> c \<and> c \<le> 2000 \<longrightarrow>
            manual_rule c = Looks_good
            \<and> fst (loop_body env goal iteration st) = Some Count_looks_good)
       \<and> current_filters (snd (loop_body env goal iteration st)) = current_filters st"
  using assms
  by (simp add: loop_body_def Let_def try_body_def except_handler_def manual_rule_def)

theorem manual_fallback_rule_witness:
  "preview_search advisor_down 0 starting_filters = Inr 2000
   \<and> (500::int) \<le> 2000 \<and> (2000::int) \<le> 2000
   \<and> manual_rule 2000 = Looks_good
   \<and> fst (loop_body advisor_down goal_text 1 (initial_state starting_filters)) = Some Count_looks_good
   \<and> \<not> (2000::int) > 2000 \<and> \<not> (2000::int) < 500"
proof -
  have h1: "preview_search advisor_down (length (previous_counts (initial_state starting_filters)))
              (current_filters (initial_state starting_filters)) = Inr 2000"
    by (simp add: advisor_down_def)
  have h2: "get_ai_refinement_suggestions advisor_down
              (current_filters (initial_state starting_filters)) 2000 goal_text 1
              (previous_counts (initial_state starting_filters) @ [2000]) = Inl RequestError"
    by (simp add: advisor_down_def)
  from manual_fallback_rule [OF h1 h2]
  show ?thesis by (simp add: advisor_down_def)
qed

text \<open>
  Claim C8. The refinement loop sends no enrichment request. In \<open>main\<close> and in
  \<open>simple_example.py\<close> an enrichment request, if there is one, is the last event of the
  run and comes right after the prompt "Proceed with enrichment?" was answered with
  \<open>yes\<close> or \<open>y\<close> (after \<open>strip\<close>, which removes the Unicode white space around the
  answer, and \<open>lower\<close>); with any other answer the run sends none.
\<close>

theorem enrichment_only_after_confirmation:
  assumes "refinement_loop env goal mx 1 (initial_state F) = (r, it, st)"
      and "run env goal mx F = (e, st')"
      and "simple_example env key = (e2, t2)"
  shows "enrichments (trace st) = 0
       \<and> (enrichments (trace st') = 0
          \<or> (\<exists>c. lower (strip (input env (inputs_read st))) \<in> {''yes'', ''y''}
                \<and> count st = Some c
                \<and> trace st' = trace st @ [Input Proceed_with_enrichment (input env (inputs_read st)),
                                            Enrich_request (current_filters st) (min c 1000)]))
       \<and> (lower (strip (input env (inputs_read st))) \<notin> {''yes'', ''y''}
            \<longrightarrow> enrichments (trace st') = 0)
       \<and> (enrichments t2 = 0
          \<or> (\<exists>c. lower (strip (input env 0)) \<in> {''yes'', ''y''}
                \<and> t2 = [Preview_request search_filters,
                         Input Proceed_with_enrichment (input env 0),
                         Enrich_request search_filters (min c 1000)]))
       \<and> (lower (strip (input env 0)) \<notin> {''yes'', ''y''} \<longrightarrow> enrichments t2 = 0)"
proof -
  from refinement_loop_enrichments [OF assms(1)]
  have loop0: "enrichments (trace st) = 0" by (simp add: initial_state_def)
  from run_cases [OF assms(1,2)]
  consider "st' = st" | "final_decision env st = (e, st')"
    by blast
  then have main_part:
    "(enrichments (trace st') = 0
          \<or> (\<exists>c. lower (strip (input env (inputs_read st))) \<in> {''yes'', ''y''}
                \<and> count st = Some c
                \<and> trace st' = trace st @ [Input Proceed_with_enrichment (input env (inputs_read st)),
                                            Enrich_request (current_filters st) (min c 1000)]))
       \<and> (lower (strip (input env (inputs_read st))) \<notin> {''yes'', ''y''}
            \<longrightarrow> enrichments (trace st') = 0)"
  proof cases
    case 1
    with loop0 show ?thesis by simp
  next
    case 2
    from final_decision_cases [OF 2] loop0 show ?thesis
      by (elim disjE exE conjE) simp_all
  qed
  from simple_example_cases [OF assms(3)]
  have simple_part:
    "(enrichments t2 = 0
          \<or> (\<exists>c. lower (strip (input env 0)) \<in> {''yes'', ''y''}
                \<and> t2 = [Preview_request search_filters,
                         Input Proceed_with_enrichment (input env 0),
                         Enrich_request search_filters (min c 1000)]))
       \<and> (lower (strip (input env 0)) \<notin> {''yes'', ''y''} \<longrightarrow> enrichments t2 = 0)"
    by auto
  from loop0 main_part simple_part show ?thesis by blast
qed

theorem enrichment_only_after_confirmation_witness:
  "run advisor_down goal_text MAX_ITERATIONS starting_filters
     = (Enrichment_cancelled,
        \<lparr>current_filters = starting_filters, previous_counts = [2000], count = Some 2000,
         inputs_read = 1,
         trace = [Preview_request starting_filters, Input Proceed_with_enrichment ''no'']\<rparr>)
   \<and> simple_example advisor_down False
     = (Raised (SystemExit 0),
        [Preview_request search_filters, Input Proceed_with_enrichment ''no''])
   \<and> lower (strip (input advisor_down 0)) = ''no''
   \<and> enrichments [Preview_request starting_filters, Input Proceed_with_enrichment ''no''] = 0
   \<and> enrichments [Preview_request search_filters, Input Proceed_with_enrichment ''no''] = 0
   \<and> run advisor_proceeds goal_text MAX_ITERATIONS starting_filters
     = (Enrichment_requested,
        \<lparr>current_filters = starting_filters, previous_counts = [1200], count = Some 1200,
         inputs_read = 1,
         trace = [Preview_request starting_filters, Input Proceed_with_enrichment ''Yes'',
                  Enrich_request starting_filters 1000]\<rparr>)
   \<and> lower (strip (input advisor_proceeds 0)) = ''yes''
   \<and> run confirms_after_no_break_space goal_text MAX_ITERATIONS starting_filters
     = (Enrichment_requested,
        \<lparr>current_filters = starting_filters, previous_counts = [1200], count = Some 1200,
         inputs_read = 1,
         trace = [Preview_request starting_filters,
                  Input Proceed_with_enrichment (CHR 0xC2 # CHR 0xA0 # ''yes''),
                  Enrich_request starting_filters 1000]\<rparr>)
   \<and> simple_example confirms_after_no_break_space False
     = (Enrichment_requested,
        [Preview_request search_filters,
         Input Proceed_with_enrichment (CHR 0xC2 # CHR 0xA0 # ''yes''),
         Enrich_request search_filters 1000])
   \<and> lower (strip (input confirms_after_no_break_space 0)) = ''yes''"
proof -
  have a: "lower (strip (input advisor_down 0)) = ''no''"
    using no_is_not_affirmative by (simp add: advisor_down_def)
  have b: "lower (strip (input advisor_proceeds 0)) = ''yes''"
    using yes_is_affirmative by (simp add: advisor_proceeds_def)
  have c: "lower (strip (input confirms_after_no_break_space 0)) = ''yes''"
    using no_break_space_yes_is_affirmative by (simp add: confirms_after_no_break_space_def)
  from enrichment_only_after_confirmation
         [OF loop_advisor_down run_advisor_down simple_example_advisor_down]
       enrichment_only_after_confirmation
         [OF loop_advisor_proceeds run_advisor_proceeds simple_example_advisor_proceeds]
       enrichment_only_after_confirmation
         [OF loop_confirms_after_no_break_space run_confirms_after_no_break_space
             simple_example_confirms_after_no_break_space]
  show ?thesis
    using a b c run_advisor_down simple_example_advisor_down run_advisor_proceeds
      run_confirms_after_no_break_space simple_example_confirms_after_no_break_space
    by simp
qed

text \<open>
  Claim C10. In \<open>main\<close>, in \<open>simple_example.py\<close> and in \<open>run_workflow_example\<close>, the
  limit of every enrichment request is \<open>min(count, 1000)\<close> for the count of the last
  preview of that run, so it is at most 1000 and at most that count.
\<close>

theorem enrichment_limit_is_min_count_1000:
  assumes "run env goal mx F = (e, st')"
      and "simple_example env key = (e2, t2)"
      and "run_workflow_example wenv = (e3, t3)"
  shows "(\<forall>f l. Enrich_request f l \<in> set (trace st') \<longrightarrow>
            previous_counts st' \<noteq> [] \<and> f = current_filters st'
            \<and> l = min (last (previous_counts st')) 1000
            \<and> l \<le> 1000 \<and> l \<le> last (previous_counts st'))
       \<and> (\<forall>f l. Enrich_request f l \<in> set t2 \<longrightarrow>
            (\<exists>c. preview_search env 0 search_filters = Inr c \<and> f = search_filters
                \<and> l = min c 1000 \<and> l \<le> 1000 \<and> l \<le> c))
       \<and> (\<forall>f l. Enrich_request f l \<in> set t3 \<longrightarrow>
            (\<exists>c. preview_leads wenv f = Inr c \<and> l = min c 1000 \<and> l \<le> 1000 \<and> l \<le> c))"
proof (intro conjI allI impI)
  fix f l assume "Enrich_request f l \<in> set (trace st')"
  from run_enrich_limit [OF assms(1) this]
  show "previous_counts st' \<noteq> []" "f = current_filters st'"
    "l = min (last (previous_counts st')) 1000" "l \<le> 1000" "l \<le> last (previous_counts st')"
    by simp_all
next
  fix f l assume "Enrich_request f l \<in> set t2"
  from simple_example_enrich_limit [OF assms(2) this]
  show "\<exists>c. preview_search env 0 search_filters = Inr c \<and> f = search_filters
            \<and> l = min c 1000 \<and> l \<le> 1000 \<and> l \<le> c"
    by auto
next
  fix f l assume "Enrich_request f l \<in> set t3"
  from run_workflow_example_enrich_limit [OF assms(3) this]
  show "\<exists>c. preview_leads wenv f = Inr c \<and> l = min c 1000 \<and> l \<le> 1000 \<and> l \<le> c"
    by auto
qed

theorem enrichment_limit_is_min_count_1000_witness:
  "run advisor_proceeds goal_text MAX_ITERATIONS starting_filters
     = (Enrichment_requested,
        \<lparr>current_filters = starting_filters, previous_counts = [1200], count = Some 1200,
         inputs_read = 1,
         trace = [Preview_request starting_filters, Input Proceed_with_enrichment ''Yes'',
                  Enrich_request starting_filters 1000]\<rparr>)
   \<and> simple_example advisor_proceeds False
     = (Enrichment_requested,
        [Preview_request search_filters, Input Proceed_with_enrichment ''Yes'',
         Enrich_request search_filters 1000])
   \<and> run_workflow_example workflow_sample
     = (Enrichment_requested,
        [Preview_request manual_filters, Input Proceed_with_enrichment ''Y'',
         Enrich_request manual_filters 1000])
   \<and> (1000::int) = min 1200 1000
   \<and> preview_search advisor_proceeds 0 search_filters = Inr 1200
   \<and> preview_leads workflow_sample manual_filters = Inr 2500
   \<and> (1000::int) = min 2500 1000"
proof -
  note inst = enrichment_limit_is_min_count_1000
    [OF run_advisor_proceeds simple_example_advisor_proceeds run_workflow_sample]
  have "preview_search advisor_proceeds 0 search_filters = Inr 1200"
    by (simp add: advisor_proceeds_def)
  moreover have "preview_leads workflow_sample manual_filters = Inr 2500"
    by (simp add: workflow_sample_def)
  ultimately show ?thesis
    using inst run_advisor_proceeds simple_example_advisor_proceeds run_workflow_sample
    by simp
qed

end
